theory Spec2Isabelle
  imports Complex_Main
begin

section \<open>The waypoint updater node\<close>

text \<open>
  A shallow embedding of \<^verbatim>\<open>ros/src/waypoint_updater/waypoint_updater.py\<close>.

  Python floats are modelled as reals (rounding is not modelled), Python integers as
  \<open>int\<close>. Every exception the interpreter can raise in \<^verbatim>\<open>send_next_waypoints\<close> is a
  value of the type \<open>error\<close>.

  A Python list of \<^verbatim>\<open>Waypoint\<close> messages holds references to objects. The objects of
  the stored path are pairwise distinct (one object per element of the received message),
  so the reference to the object at position \<open>j\<close> of \<^verbatim>\<open>self.waypoints\<close> is modelled
  as the position \<open>j\<close> itself, and the field \<open>waypoints\<close> of the node holds the current
  values of these objects. Every other list of waypoints of the program
  (\<^verbatim>\<open>next_wps\<close>) is a list of such references.
\<close>

subsection \<open>Messages and constants\<close>

record waypoint =
  position_x :: real
  position_y :: real
  position_z :: real
  linear_x :: real

record pose =
  pose_x :: real
  pose_y :: real

datatype error = IndexError | TypeError | ValueError

definition LOOKAHEAD_WPS :: nat where
  "LOOKAHEAD_WPS = 200"

definition MAX_SPEED_METERS_PER_SEC :: real where
  "MAX_SPEED_METERS_PER_SEC = 20 * 0.447"

definition SLOWDOWN_WPS :: int where
  "SLOWDOWN_WPS = 100"

definition sys_maxsize :: int where
  "sys_maxsize = 9223372036854775807"

subsection \<open>The node's state\<close>

record updater =
  waypoints :: "waypoint list option"
  current_pose :: "pose option"
  red_light_wp :: int
  last_wp_id :: "int option"
  upcoming_light_state :: "int option"

text \<open>The state \<^verbatim>\<open>__init__\<close> leaves.\<close>

definition init :: updater where
  "init = \<lparr>waypoints = None, current_pose = None, red_light_wp = - 1,
           last_wp_id = None, upcoming_light_state = None\<rparr>"

subsection \<open>Python's list operations\<close>

text \<open>\<^verbatim>\<open>xs[i]\<close>: an index from \<open>- len\<close> to \<open>- 1\<close> counts from the end of the list, an
  index outside \<open>- len \<dots> len - 1\<close> raises \<^verbatim>\<open>IndexError\<close>.\<close>

definition getitem :: "'a list \<Rightarrow> int \<Rightarrow> error + 'a" where
  "getitem xs i =
     (if 0 \<le> i \<and> i < int (length xs) then Inr (xs ! nat i)
      else if - int (length xs) \<le> i \<and> i < 0 then Inr (xs ! nat (int (length xs) + i))
      else Inl IndexError)"

text \<open>\<^verbatim>\<open>list(islice(cycle(xs), start, stop))\<close> for a list \<open>xs\<close> of \<open>n\<close> elements and
  \<open>0 \<le> start\<close>, as the list of the positions in \<open>xs\<close> of the elements it holds:
  \<^verbatim>\<open>cycle\<close> of an empty list yields nothing.\<close>

definition islice_cycle :: "nat \<Rightarrow> nat \<Rightarrow> nat \<Rightarrow> nat list" where
  "islice_cycle n start stop = (if n = 0 then [] else map (\<lambda>p. p mod n) [start..<stop])"

subsection \<open>The search for the closest waypoint\<close>

text \<open>The loop \<^verbatim>\<open>for i in range(start_index, end_index)\<close> of
  \<^verbatim>\<open>send_next_waypoints\<close>, over the list of the indices of the range, on the pair
  \<^verbatim>\<open>(min_dist, min_loc)\<close>.\<close>

fun closest_scan ::
  "waypoint list \<Rightarrow> real \<Rightarrow> real \<Rightarrow> int list \<Rightarrow> real \<times> int option \<Rightarrow> error + (real \<times> int option)"
where
  "closest_scan wps carx cary [] (min_dist, min_loc) = Inr (min_dist, min_loc)"
| "closest_scan wps carx cary (i # rest) (min_dist, min_loc) =
     (case getitem wps i of
        Inl e \<Rightarrow> Inl e
      | Inr wp \<Rightarrow>
          (let dist = sqrt ((carx - position_x wp)\<^sup>2 + (cary - position_y wp)\<^sup>2)
           in if dist < min_dist then closest_scan wps carx cary rest (dist, Some i)
              else closest_scan wps carx cary rest (min_dist, min_loc)))"

text \<open>Lines 127 to 156 of the source: the range of the scan, the scan, and the read
  \<^verbatim>\<open>self.waypoints[min_loc]\<close>, which raises \<^verbatim>\<open>TypeError\<close> when \<^verbatim>\<open>min_loc\<close> is still
  \<^verbatim>\<open>None\<close>.\<close>

definition closest_waypoint :: "waypoint list \<Rightarrow> pose \<Rightarrow> int option \<Rightarrow> error + int" where
  "closest_waypoint wps p last_id =
     (let carx = pose_x p;
          cary = pose_y p;
          start_index = (case last_id of None \<Rightarrow> 0 | Some l \<Rightarrow> l - 20);
          end_index = (case last_id of None \<Rightarrow> int (length wps) | Some l \<Rightarrow> l + 20)
      in case closest_scan wps carx cary [start_index..end_index - 1]
                (real_of_int sys_maxsize, None) of
           Inl e \<Rightarrow> Inl e
         | Inr (min_dist, min_loc) \<Rightarrow>
             (case min_loc of
                None \<Rightarrow> Inl TypeError
              | Some m \<Rightarrow> (case getitem wps m of Inl e \<Rightarrow> Inl e | Inr closest_wp \<Rightarrow> Inr m)))"

subsection \<open>The speeds\<close>

text \<open>\<^verbatim>\<open>waypoints[waypoint].twist.twist.linear.x = velocity\<close>: the list \<open>refs\<close> holds
  references, and the assignment changes the object \<open>refs ! i\<close> refers to.\<close>

definition set_waypoint_velocity :: "waypoint list \<Rightarrow> nat list \<Rightarrow> nat \<Rightarrow> real \<Rightarrow> waypoint list" where
  "set_waypoint_velocity objs refs i velocity =
     objs[refs ! i := (objs ! (refs ! i))\<lparr>linear_x := velocity\<rparr>]"

text \<open>The velocity the body of the loop \<^verbatim>\<open>for i in range(len(next_wps) - 1)\<close> gives to
  \<^verbatim>\<open>set_waypoint_velocity\<close> at \<open>i\<close>.\<close>

definition new_velocity :: "bool \<Rightarrow> int \<Rightarrow> int \<Rightarrow> nat \<Rightarrow> real" where
  "new_velocity is_red_light_ahead red_light min_loc i =
     (let slope = MAX_SPEED_METERS_PER_SEC / real_of_int SLOWDOWN_WPS
      in if \<not> is_red_light_ahead \<or> int i > red_light then MAX_SPEED_METERS_PER_SEC
         else (let wp_to_go = red_light - min_loc - int i;
                   target_vel = (if wp_to_go < 5 then 0
                                 else MAX_SPEED_METERS_PER_SEC
                                        - real_of_int (SLOWDOWN_WPS - wp_to_go) * slope)
               in max 0 target_vel))"

text \<open>The loop itself, on the objects of the path.\<close>

definition adjust_speeds :: "bool \<Rightarrow> int \<Rightarrow> int \<Rightarrow> nat list \<Rightarrow> waypoint list \<Rightarrow> waypoint list" where
  "adjust_speeds is_red_light_ahead red_light min_loc next_wps objs =
     fold (\<lambda>i os. set_waypoint_velocity os next_wps i
                     (new_velocity is_red_light_ahead red_light min_loc i))
       [0..<length next_wps - 1] objs"

subsection \<open>One cycle\<close>

text \<open>What a call of \<^verbatim>\<open>send_next_waypoints\<close> does: it returns at once (a path or a pose
  is missing), raises, returns at the log line of the red light behind the car, or
  publishes a lane, whose waypoints are the values the referenced objects have then.\<close>

datatype outcome =
    NotReady
  | Raised error
  | Aborted
  | Published (lane_waypoints: "waypoint list")

definition send_next_waypoints :: "updater \<Rightarrow> outcome \<times> updater" where
  "send_next_waypoints self =
     (case waypoints self of
        None \<Rightarrow> (NotReady, self)
      | Some wps \<Rightarrow>
          (case current_pose self of
             None \<Rightarrow> (NotReady, self)
           | Some p \<Rightarrow>
               (case closest_waypoint wps p (last_wp_id self) of
                  Inl e \<Rightarrow> (Raised e, self)
                | Inr min_loc \<Rightarrow>
                    (let self1 = self\<lparr>last_wp_id := Some min_loc\<rparr>
                     in if min_loc < 0 then (Raised ValueError, self1)
                        else
                          (let next_wps = islice_cycle (length wps) (nat min_loc)
                                            (nat min_loc + LOOKAHEAD_WPS - 1);
                               wp_delta = red_light_wp self - min_loc;
                               is_red_light_ahead = (red_light_wp self \<noteq> - 1 \<and> wp_delta < 100)
                           in if is_red_light_ahead \<and> red_light_wp self \<le> min_loc
                              then (Aborted, self1)
                              else
                                (let objs = adjust_speeds is_red_light_ahead (red_light_wp self)
                                              min_loc next_wps wps
                                 in (Published (map (\<lambda>r. objs ! r) next_wps),
                                     self1\<lparr>waypoints := Some objs\<rparr>)))))))"

subsection \<open>The callbacks\<close>

text \<open>A callback returns the outcome of the cycle it starts, if it starts one, and the
  state it leaves.\<close>

definition pose_cb :: "updater \<Rightarrow> pose \<Rightarrow> outcome option \<times> updater" where
  "pose_cb self msg =
     (let (out, self') = send_next_waypoints (self\<lparr>current_pose := Some msg\<rparr>)
      in (Some out, self'))"

definition waypoints_cb :: "updater \<Rightarrow> waypoint list \<Rightarrow> outcome option \<times> updater" where
  "waypoints_cb self lane =
     (if waypoints self = None
      then (let (out, self') = send_next_waypoints (self\<lparr>waypoints := Some lane\<rparr>)
            in (Some out, self'))
      else (None, self))"

definition traffic_cb :: "updater \<Rightarrow> int \<Rightarrow> outcome option \<times> updater" where
  "traffic_cb self light_idx =
     (let (out, self') = send_next_waypoints (self\<lparr>red_light_wp := light_idx\<rparr>)
      in (Some out, self'))"

definition traffic_state_cb :: "updater \<Rightarrow> int \<Rightarrow> outcome option \<times> updater" where
  "traffic_state_cb self state = (None, self\<lparr>upcoming_light_state := Some state\<rparr>)"

subsection \<open>Deliveries\<close>

text \<open>The position of a waypoint (\<^verbatim>\<open>pose.pose.position\<close>), which no line of the node
  assigns.\<close>

definition place :: "waypoint \<Rightarrow> real \<times> real \<times> real" where
  "place w = (position_x w, position_y w, position_z w)"

text \<open>The messages of the four subscribed topics, and the state a delivery leaves: each
  message runs its callback.\<close>

datatype event = PoseMsg pose | LaneMsg "waypoint list" | TrafficMsg int | LightStateMsg int

fun deliver :: "updater \<Rightarrow> event \<Rightarrow> updater" where
  "deliver self (PoseMsg msg) = snd (pose_cb self msg)"
| "deliver self (LaneMsg lane) = snd (waypoints_cb self lane)"
| "deliver self (TrafficMsg light_idx) = snd (traffic_cb self light_idx)"
| "deliver self (LightStateMsg state) = snd (traffic_state_cb self state)"

subsection \<open>Example states\<close>

text \<open>A straight track of \<open>n\<close> waypoints one metre apart along the x axis, each with the
  nominal speed \<open>v\<close>.\<close>

definition track :: "nat \<Rightarrow> real \<Rightarrow> waypoint list" where
  "track n v =
     map (\<lambda>i. \<lparr>position_x = real i, position_y = 0, position_z = 0, linear_x = v\<rparr>) [0..<n]"

text \<open>The car at waypoint 25 of a track of 230 waypoints, localized there by the cycle
  before, and no red light.\<close>

definition cruising :: updater where
  "cruising = \<lparr>waypoints = Some (track 230 5), current_pose = Some \<lparr>pose_x = 25, pose_y = 0\<rparr>,
                red_light_wp = - 1, last_wp_id = Some 25, upcoming_light_state = None\<rparr>"

text \<open>A path of 60 waypoints that closes at its seam: the last waypoint lies one metre
  before the first.\<close>

definition seam :: "waypoint list" where
  "seam = (track 60 5)[59 := \<lparr>position_x = - 1, position_y = 0, position_z = 0, linear_x = 5\<rparr>]"

section \<open>Properties\<close>

subsection \<open>List indexing and the scan\<close>

lemma getitem_Inl: "getitem xs i = Inl e \<Longrightarrow> e = IndexError"
  by (simp add: getitem_def split: if_splits)

lemma getitem_error_iff:
  "getitem xs i = Inl IndexError \<longleftrightarrow> i < - int (length xs) \<or> int (length xs) \<le> i"
  by (auto simp: getitem_def)

lemma getitem_mod:
  "- int (length xs) \<le> i \<Longrightarrow> i < int (length xs) \<Longrightarrow>
   getitem xs i = Inr (xs ! nat (i mod int (length xs)))"
proof (cases "0 \<le> i")
  case True
  assume "i < int (length xs)"
  with True show ?thesis by (simp add: getitem_def)
next
  case False
  assume lo: "- int (length xs) \<le> i"
  have "(i + int (length xs)) mod int (length xs) = i + int (length xs)"
    using False lo by (intro mod_pos_pos_trivial) auto
  then have "i mod int (length xs) = int (length xs) + i"
    by (simp add: add.commute)
  with False lo show ?thesis by (simp add: getitem_def)
qed

lemma closest_scan_error:
  "i \<in> set idxs \<Longrightarrow> getitem wps i = Inl IndexError \<Longrightarrow>
   closest_scan wps carx cary idxs acc = Inl IndexError"
proof (induction idxs arbitrary: acc)
  case Nil
  then show ?case by simp
next
  case (Cons j rest)
  obtain d l where acc: "acc = (d, l)" by (cases acc)
  show ?case
  proof (cases "getitem wps j")
    case (Inl e)
    then show ?thesis using getitem_Inl[OF Inl] by (simp add: acc)
  next
    case (Inr wp)
    with Cons have "i \<in> set rest" by auto
    then show ?thesis using Cons.IH Cons.prems(2) Inr by (simp add: acc Let_def)
  qed
qed

lemma fold_set_length:
  "length (fold (\<lambda>i os. set_waypoint_velocity os refs i (f i)) [0..<n] objs) = length objs"
  by (induction n) (simp_all add: set_waypoint_velocity_def)

lemma fold_set_last_writer:
  assumes "j < n" "refs ! j = r" "r < length objs"
    and "\<forall>i. j \<le> i \<and> i < n \<and> refs ! i = r \<longrightarrow> P (f i)"
  shows "P (linear_x (fold (\<lambda>i os. set_waypoint_velocity os refs i (f i)) [0..<n] objs ! r))"
  using assms
proof (induction n)
  case 0
  then show ?case by simp
next
  case (Suc n)
  show ?case
  proof (cases "refs ! n = r")
    case True
    with Suc.prems have "P (f n)" by auto
    with True Suc.prems(3) show ?thesis
      by (simp add: set_waypoint_velocity_def fold_set_length[unfolded set_waypoint_velocity_def])
  next
    case False
    with Suc.prems have "j < n" by (metis less_SucE)
    with Suc have "P (linear_x (fold (\<lambda>i os. set_waypoint_velocity os refs i (f i)) [0..<n] objs ! r))"
      by auto
    with False show ?thesis
      by (simp add: set_waypoint_velocity_def)
  qed
qed

lemma fold_set_untouched:
  "\<forall>i<n. refs ! i \<noteq> r \<Longrightarrow>
   fold (\<lambda>i os. set_waypoint_velocity os refs i (f i)) [0..<n] objs ! r = objs ! r"
  by (induction n) (simp_all add: set_waypoint_velocity_def)

lemma send_next_waypoints_Published:
  assumes "send_next_waypoints self = (Published w, self')"
  obtains wps p m where
    "waypoints self = Some wps" "current_pose self = Some p"
    "closest_waypoint wps p (last_wp_id self) = Inr m" "0 \<le> m"
    "\<not> (red_light_wp self \<noteq> - 1 \<and> red_light_wp self - m < 100 \<and> red_light_wp self \<le> m)"
    "w = map (\<lambda>r. adjust_speeds (red_light_wp self \<noteq> - 1 \<and> red_light_wp self - m < 100)
                   (red_light_wp self) m
                   (islice_cycle (length wps) (nat m) (nat m + LOOKAHEAD_WPS - 1)) wps ! r)
           (islice_cycle (length wps) (nat m) (nat m + LOOKAHEAD_WPS - 1))"
    "self' = self\<lparr>last_wp_id := Some m,
       waypoints := Some (adjust_speeds (red_light_wp self \<noteq> - 1 \<and> red_light_wp self - m < 100)
                   (red_light_wp self) m
                   (islice_cycle (length wps) (nat m) (nat m + LOOKAHEAD_WPS - 1)) wps)\<rparr>"
  using assms
  by (auto simp: send_next_waypoints_def Let_def split: option.splits sum.splits if_splits)

lemma closest_waypoint_range:
  "closest_waypoint wps p l = Inr m \<Longrightarrow> - int (length wps) \<le> m \<and> m < int (length wps)"
  by (auto simp: closest_waypoint_def Let_def getitem_def split: sum.splits option.splits if_splits prod.splits)

subsection \<open>Evaluating the examples\<close>

lemma length_track [simp]: "length (track n v) = n"
  by (simp add: track_def)

lemma nth_track [simp]:
  "i < n \<Longrightarrow> track n v ! i = \<lparr>position_x = real i, position_y = 0, position_z = 0, linear_x = v\<rparr>"
  by (simp add: track_def)

lemma sqrt_less_maxsize: "x < 10 ^ 36 \<Longrightarrow> sqrt x < 9223372036854775807"
proof -
  assume "x < 10 ^ 36"
  then have "x < (9223372036854775807::real)\<^sup>2" by simp
  then show ?thesis by (rule real_less_lsqrt[rotated]) simp
qed

subsection \<open>The loop over the window\<close>

lemma islice_cycle_length: "0 < n \<Longrightarrow> length (islice_cycle n a b) = b - a"
  by (simp add: islice_cycle_def)

lemma islice_cycle_nth: "0 < n \<Longrightarrow> i < b - a \<Longrightarrow> islice_cycle n a b ! i = (a + i) mod n"
  by (simp add: islice_cycle_def)

lemma adjust_speeds_length: "length (adjust_speeds b red m refs objs) = length objs"
  unfolding adjust_speeds_def by (rule fold_set_length)

lemma adjust_speeds_last_writer:
  assumes "j < length refs - 1" "refs ! j = r" "r < length objs"
    and "\<forall>i. j \<le> i \<and> i < length refs - 1 \<and> refs ! i = r \<longrightarrow> P (new_velocity b red m i)"
  shows "P (linear_x (adjust_speeds b red m refs objs ! r))"
  unfolding adjust_speeds_def using assms by (rule fold_set_last_writer)

lemma adjust_speeds_untouched:
  "\<forall>i<length refs - 1. refs ! i \<noteq> r \<Longrightarrow> adjust_speeds b red m refs objs ! r = objs ! r"
  unfolding adjust_speeds_def by (rule fold_set_untouched)

text \<open>What a published window is.\<close>

lemma Published_window:
  assumes "send_next_waypoints self = (Published w, self')"
  obtains wps p m objs where
    "waypoints self = Some wps" "current_pose self = Some p"
    "closest_waypoint wps p (last_wp_id self) = Inr m" "0 \<le> m" "m < int (length wps)"
    "\<not> (red_light_wp self \<noteq> - 1 \<and> red_light_wp self - m < 100 \<and> red_light_wp self \<le> m)"
    "objs = adjust_speeds (red_light_wp self \<noteq> - 1 \<and> red_light_wp self - m < 100)
              (red_light_wp self) m
              (islice_cycle (length wps) (nat m) (nat m + LOOKAHEAD_WPS - 1)) wps"
    "length w = 199"
    "\<forall>i<199. w ! i = objs ! ((nat m + i) mod length wps)"
    "self' = self\<lparr>last_wp_id := Some m, waypoints := Some objs\<rparr>"
proof -
  from assms obtain wps p m where
    a: "waypoints self = Some wps" "current_pose self = Some p"
    "closest_waypoint wps p (last_wp_id self) = Inr m" "0 \<le> m"
    "\<not> (red_light_wp self \<noteq> - 1 \<and> red_light_wp self - m < 100 \<and> red_light_wp self \<le> m)"
    and w: "w = map (\<lambda>r. adjust_speeds (red_light_wp self \<noteq> - 1 \<and> red_light_wp self - m < 100)
                   (red_light_wp self) m
                   (islice_cycle (length wps) (nat m) (nat m + LOOKAHEAD_WPS - 1)) wps ! r)
           (islice_cycle (length wps) (nat m) (nat m + LOOKAHEAD_WPS - 1))"
    and s: "self' = self\<lparr>last_wp_id := Some m,
       waypoints := Some (adjust_speeds (red_light_wp self \<noteq> - 1 \<and> red_light_wp self - m < 100)
                   (red_light_wp self) m
                   (islice_cycle (length wps) (nat m) (nat m + LOOKAHEAD_WPS - 1)) wps)\<rparr>"
    by (rule send_next_waypoints_Published)
  from a(3) have m: "m < int (length wps)" by (simp add: closest_waypoint_range)
  with a(4) have n: "0 < length wps" by auto
  have len: "length w = 199"
    by (simp add: w islice_cycle_length[OF n] LOOKAHEAD_WPS_def)
  have nth: "\<forall>i<199. w ! i = adjust_speeds (red_light_wp self \<noteq> - 1 \<and> red_light_wp self - m < 100)
              (red_light_wp self) m
              (islice_cycle (length wps) (nat m) (nat m + LOOKAHEAD_WPS - 1)) wps
                ! ((nat m + i) mod length wps)"
    by (simp add: w islice_cycle_length[OF n] islice_cycle_nth[OF n] LOOKAHEAD_WPS_def)
  show thesis
    by (rule that[OF a(1-4) m a(5) refl len nth s])
qed

text \<open>The speed of the element at offset \<open>i\<close> of the published window is the velocity the
  loop assigned last to the object this element refers to.\<close>

lemma Published_speed:
  assumes "send_next_waypoints self = (Published w, self')"
    and "waypoints self = Some wps" and "last_wp_id self' = Some m"
    and "i < 198"
    and "\<forall>i'. i \<le> i' \<and> i' < 198 \<and> (nat m + i') mod length wps = (nat m + i) mod length wps
            \<longrightarrow> P (new_velocity (red_light_wp self \<noteq> - 1 \<and> red_light_wp self - m < 100)
                     (red_light_wp self) m i')"
  shows "P (linear_x (w ! i))"
proof -
  from assms(1) obtain wps0 p m0 objs where
    a: "waypoints self = Some wps0" "0 \<le> m0" "m0 < int (length wps0)"
    "objs = adjust_speeds (red_light_wp self \<noteq> - 1 \<and> red_light_wp self - m0 < 100)
              (red_light_wp self) m0
              (islice_cycle (length wps0) (nat m0) (nat m0 + LOOKAHEAD_WPS - 1)) wps0"
    "\<forall>i<199. w ! i = objs ! ((nat m0 + i) mod length wps0)"
    "self' = self\<lparr>last_wp_id := Some m0, waypoints := Some objs\<rparr>"
    by (rule Published_window)
  from a(1) assms(2) have [simp]: "wps0 = wps" by simp
  from a(6) assms(3) have [simp]: "m0 = m" by simp
  from a(2,3) have n: "0 < length wps" by auto
  define refs where "refs = islice_cycle (length wps) (nat m) (nat m + LOOKAHEAD_WPS - 1)"
  have lr: "length refs - 1 = 198"
    by (simp add: refs_def islice_cycle_length[OF n] LOOKAHEAD_WPS_def)
  have nr: "\<And>j. j < 199 \<Longrightarrow> refs ! j = (nat m + j) mod length wps"
    by (simp add: refs_def islice_cycle_nth[OF n] LOOKAHEAD_WPS_def)
  have objs: "objs = adjust_speeds (red_light_wp self \<noteq> - 1 \<and> red_light_wp self - m < 100)
              (red_light_wp self) m refs wps"
    using a(4) by (simp add: refs_def)
  have "P (linear_x (objs ! ((nat m + i) mod length wps)))"
    unfolding objs
  proof (rule adjust_speeds_last_writer[where j = i])
    show "i < length refs - 1" using assms(4) lr by simp
    show "refs ! i = (nat m + i) mod length wps" using assms(4) by (simp add: nr)
    show "(nat m + i) mod length wps < length wps" using n by simp
    show "\<forall>i'. i \<le> i' \<and> i' < length refs - 1 \<and> refs ! i' = (nat m + i) mod length wps \<longrightarrow>
        P (new_velocity (red_light_wp self \<noteq> - 1 \<and> red_light_wp self - m < 100)
             (red_light_wp self) m i')"
    proof (intro allI impI)
      fix i' assume h: "i \<le> i' \<and> i' < length refs - 1 \<and> refs ! i' = (nat m + i) mod length wps"
      then have "i' < 198" using lr by simp
      moreover from this have "refs ! i' = (nat m + i') mod length wps" by (simp add: nr)
      ultimately show "P (new_velocity (red_light_wp self \<noteq> - 1 \<and> red_light_wp self - m < 100)
             (red_light_wp self) m i')"
        using assms(5) h by auto
    qed
  qed
  with a(5) assms(4) show ?thesis by simp
qed


lemma send_next_waypoints_publishes:
  assumes "waypoints self = Some wps" "current_pose self = Some p"
    and "closest_waypoint wps p (last_wp_id self) = Inr m" "0 \<le> m"
    and "\<not> (red_light_wp self \<noteq> - 1 \<and> red_light_wp self - m < 100 \<and> red_light_wp self \<le> m)"
  shows "\<exists>w self'. send_next_waypoints self = (Published w, self')"
  using assms by (auto simp: send_next_waypoints_def Let_def)

lemma cruising_closest:
  "closest_waypoint (track 230 5) \<lparr>pose_x = 25, pose_y = 0\<rparr> (Some 25) = Inr 25"
  by (simp add: closest_waypoint_def getitem_def sqrt_less_maxsize sys_maxsize_def Let_def)

lemma cruising_publishes:
  "r = - 1 \<or> 25 < r \<Longrightarrow>
   \<exists>w self'. send_next_waypoints (cruising\<lparr>red_light_wp := r\<rparr>) = (Published w, self')"
  by (rule send_next_waypoints_publishes[where m = 25 and wps = "track 230 5"
        and p = "\<lparr>pose_x = 25, pose_y = 0\<rparr>"])
     (auto simp: cruising_def cruising_closest)

lemma mod_alias:
  assumes "(a + i') mod n = (a + i) mod n" "i \<le> i'" "i' - i < n"
  shows "i' = (i::nat)"
proof -
  from assms(1,2) have "n dvd (a + i') - (a + i)"
    by (simp add: mod_eq_dvd_iff_nat)
  then have "n dvd i' - i" by simp
  with assms(3) have "i' - i = 0" by (meson dvd_imp_le not_less zero_less_iff_neq_zero)
  with assms(2) show ?thesis by simp
qed

lemma Published_last_wp_id:
  assumes "send_next_waypoints self = (Published w, self')"
    and "waypoints self = Some wps" "current_pose self = Some p"
  shows "closest_waypoint wps p (last_wp_id self) = Inr m \<Longrightarrow> last_wp_id self' = Some m"
  using assms by (auto elim!: Published_window)

lemma cruising_cycle:
  assumes "send_next_waypoints (cruising\<lparr>red_light_wp := r\<rparr>) = (Published w, self')"
  shows "last_wp_id self' = Some 25"
proof (rule Published_last_wp_id[OF assms])
  show "waypoints (cruising\<lparr>red_light_wp := r\<rparr>) = Some (track 230 5)"
    by (simp add: cruising_def)
  show "current_pose (cruising\<lparr>red_light_wp := r\<rparr>) = Some \<lparr>pose_x = 25, pose_y = 0\<rparr>"
    by (simp add: cruising_def)
  have "last_wp_id (cruising\<lparr>red_light_wp := r\<rparr>) = Some 25"
    by (simp add: cruising_def)
  then show "closest_waypoint (track 230 5) \<lparr>pose_x = 25, pose_y = 0\<rparr>
      (last_wp_id (cruising\<lparr>red_light_wp := r\<rparr>)) = Inr 25"
    using cruising_closest by simp
qed

subsection \<open>The assigned velocities\<close>

lemma new_velocity_no_light [simp]: "new_velocity False r m i = MAX_SPEED_METERS_PER_SEC"
  by (simp add: new_velocity_def)

lemma cruising_waypoints: "waypoints (cruising\<lparr>red_light_wp := r\<rparr>) = Some (track 230 5)"
  by (simp add: cruising_def)


lemma new_velocity_ramp:
  assumes "0 \<le> m" "5 \<le> r - m" "r - m < SLOWDOWN_WPS" "int i \<le> r - m"
  shows "new_velocity (r \<noteq> - 1 \<and> r - m < 100) r m i =
           (if r - m - int i < 5 then 0
            else MAX_SPEED_METERS_PER_SEC * real_of_int (r - m - int i) / 100)"
proof -
  from assms have b: "r \<noteq> - 1 \<and> r - m < 100" "\<not> int i > r"
    by (auto simp: SLOWDOWN_WPS_def)
  show ?thesis
    using b by (simp add: new_velocity_def SLOWDOWN_WPS_def MAX_SPEED_METERS_PER_SEC_def
        Let_def max_def field_simps)
qed

lemma away_closest:
  "closest_waypoint (track 230 5) \<lparr>pose_x = 30, pose_y = 0\<rparr> (Some 25) = Inr 30"
  by (simp add: closest_waypoint_def getitem_def sqrt_less_maxsize sys_maxsize_def Let_def)

subsection \<open>What the scan reads\<close>

text \<open>With \<open>last_wp_id\<close> below 20 the scan reads negative indices, from the end of the
  path, and can find its closest waypoint there: the index it returns is negative, and
  \<^verbatim>\<open>islice\<close> raises \<^verbatim>\<open>ValueError\<close> on it, after \<open>last_wp_id\<close> has been assigned.\<close>

lemma seam_closest:
  "closest_waypoint seam \<lparr>pose_x = - 1, pose_y = 0\<rparr> (Some 5) = Inr (- 1)"
  by (simp add: seam_def closest_waypoint_def getitem_def sqrt_less_maxsize sys_maxsize_def Let_def
      upto_rec1)

lemma negative_index_raises:
  "send_next_waypoints
     \<lparr>waypoints = Some seam, current_pose = Some \<lparr>pose_x = - 1, pose_y = 0\<rparr>,
      red_light_wp = - 1, last_wp_id = Some 5, upcoming_light_state = None\<rparr>
   = (Raised ValueError,
      \<lparr>waypoints = Some seam, current_pose = Some \<lparr>pose_x = - 1, pose_y = 0\<rparr>,
       red_light_wp = - 1, last_wp_id = Some (- 1), upcoming_light_state = None\<rparr>)"
  using seam_closest by (simp add: send_next_waypoints_def)

subsection \<open>The stored path over deliveries\<close>

lemma map_place_set_waypoint_velocity:
  "map place (set_waypoint_velocity objs refs i v) = map place objs"
proof (cases "refs ! i < length objs")
  case True
  then have "place ((objs ! (refs ! i))\<lparr>linear_x := v\<rparr>) = map place objs ! (refs ! i)"
    by (simp add: place_def)
  then show ?thesis
    by (simp add: set_waypoint_velocity_def map_update)
next
  case False
  then have "length objs \<le> refs ! i" by simp
  then show ?thesis by (simp add: set_waypoint_velocity_def list_update_beyond)
qed

lemma map_place_fold:
  "map place (fold (\<lambda>i os. set_waypoint_velocity os refs i (f i)) idxs objs) = map place objs"
  by (induction idxs arbitrary: objs) (simp_all add: map_place_set_waypoint_velocity)

lemma map_place_adjust_speeds: "map place (adjust_speeds b r m refs objs) = map place objs"
  unfolding adjust_speeds_def by (rule map_place_fold)

lemma send_next_waypoints_path:
  assumes "waypoints self = Some wps"
  shows "\<exists>objs. waypoints (snd (send_next_waypoints self)) = Some objs \<and>
           map place objs = map place wps \<and>
           (\<not> is_Published (fst (send_next_waypoints self)) \<longrightarrow> objs = wps)"
  using assms
  by (auto simp: send_next_waypoints_def Let_def map_place_adjust_speeds
      split: option.splits sum.splits)

lemma deliver_path:
  assumes "waypoints self = Some wps"
  shows "\<exists>objs. waypoints (deliver self ev) = Some objs \<and> map place objs = map place wps"
proof (cases ev)
  case (PoseMsg msg)
  have "waypoints (self\<lparr>current_pose := Some msg\<rparr>) = Some wps" using assms by simp
  from send_next_waypoints_path[OF this] show ?thesis
    by (auto simp: PoseMsg pose_cb_def split_beta)
next
  case (LaneMsg lane)
  with assms show ?thesis by (simp add: waypoints_cb_def)
next
  case (TrafficMsg i)
  have "waypoints (self\<lparr>red_light_wp := i\<rparr>) = Some wps" using assms by simp
  from send_next_waypoints_path[OF this] show ?thesis
    by (auto simp: TrafficMsg traffic_cb_def split_beta)
next
  case (LightStateMsg st)
  with assms show ?thesis by (simp add: traffic_state_cb_def)
qed

lemma foldl_deliver_path:
  assumes "waypoints self = Some wps"
  shows "\<exists>objs. waypoints (foldl deliver self evs) = Some objs \<and> map place objs = map place wps"
  using assms
proof (induction evs arbitrary: self wps)
  case Nil
  then show ?case by simp
next
  case (Cons ev evs)
  from deliver_path[OF Cons.prems, of ev] obtain objs where
    o: "waypoints (deliver self ev) = Some objs" "map place objs = map place wps"
    by blast
  from Cons.IH[OF o(1)] o(2) show ?case by simp
qed

section \<open>The claims\<close>

text \<open>
  C1. The claim: the window a cycle publishes holds exactly \<open>LOOKAHEAD_WPS = 200\<close>
  waypoints. The code takes the slice from \<open>min_loc\<close> to
  \<open>min_loc + LOOKAHEAD_WPS - 1\<close> of the cycled path: every published window holds 199
  waypoints, one less than \<open>LOOKAHEAD_WPS\<close>, wherever the car is on the path.
\<close>

theorem window_length_199:
  "send_next_waypoints self = (Published w, self') \<Longrightarrow>
   length w = 199 \<and> length w \<noteq> LOOKAHEAD_WPS"
  by (erule Published_window) (simp add: LOOKAHEAD_WPS_def)

theorem window_length_199_witness:
  "is_Published (fst (send_next_waypoints cruising)) \<and>
   length (lane_waypoints (fst (send_next_waypoints cruising))) = 199 \<and>
   length (lane_waypoints (fst (send_next_waypoints cruising))) \<noteq> LOOKAHEAD_WPS"
proof -
  from cruising_publishes[of "- 1"] obtain w self'
    where e: "send_next_waypoints cruising = (Published w, self')"
    by (auto simp: cruising_def)
  from window_length_199[OF e] show ?thesis by (simp add: e)
qed

text \<open>
  C2. The claim: with an actionable stop, every window offset at or beyond the stop's
  relative offset \<open>k = stopIndex - nearestIndex\<close> is assigned \<open>V_MAX\<close>. The docstring of
  the code says so of the waypoints after the red light (\<^verbatim>\<open>red light idx < i: MAX_SPEED\<close>;
  with the closest waypoint 25 and the light at 29, the waypoints 30 and 31 get the maximum
  speed). The loop tests \<^verbatim>\<open>i > self.red_light_wp\<close>, the offset in the window against the
  index of the light in the path: on a path of at least 198 waypoints, every offset of
  the window beyond \<open>k\<close> and up to the stop index carries the speed 0 in the published
  window, not \<open>V_MAX\<close>. With the nearest index 25 and the stop index 29 these are the
  offsets 5 to 29, the waypoints 30 to 54.
\<close>

theorem offsets_beyond_stop_get_zero:
  assumes "send_next_waypoints self = (Published w, self')"
    and "waypoints self = Some wps" and "last_wp_id self' = Some m"
    and "red_light_wp self \<noteq> - 1" and "red_light_wp self - m < 100"
    and "red_light_wp self - m < int i" and "int i \<le> red_light_wp self" and "i < 198"
    and "LOOKAHEAD_WPS - 2 \<le> length wps"
  shows "linear_x (w ! i) = 0 \<and> linear_x (w ! i) \<noteq> MAX_SPEED_METERS_PER_SEC"
proof -
  note i = assms(8)
  from assms(9) have n: "198 \<le> length wps" by (simp add: LOOKAHEAD_WPS_def)
  have v: "new_velocity (red_light_wp self \<noteq> - 1 \<and> red_light_wp self - m < 100)
             (red_light_wp self) m i = 0"
    using assms(4-7) by (simp add: new_velocity_def)
  from assms(1-3) i have "linear_x (w ! i) = 0"
  proof (rule Published_speed, intro allI impI)
    fix i' assume h: "i \<le> i' \<and> i' < 198 \<and>
        (nat m + i') mod length wps = (nat m + i) mod length wps"
    then have "(nat m + i') mod length wps = (nat m + i) mod length wps" by simp
    moreover from h n have "i \<le> i'" "i' - i < length wps" by auto
    ultimately have "i' = i" by (rule mod_alias)
    with v show "new_velocity (red_light_wp self \<noteq> - 1 \<and> red_light_wp self - m < 100)
             (red_light_wp self) m i' = 0"
      by simp
  qed
  then show ?thesis by (simp add: MAX_SPEED_METERS_PER_SEC_def)
qed

theorem offsets_beyond_stop_get_zero_witness:
  "is_Published (fst (send_next_waypoints (cruising\<lparr>red_light_wp := 29\<rparr>))) \<and>
   linear_x (lane_waypoints (fst (send_next_waypoints (cruising\<lparr>red_light_wp := 29\<rparr>))) ! 5) = 0 \<and>
   linear_x (lane_waypoints (fst (send_next_waypoints (cruising\<lparr>red_light_wp := 29\<rparr>))) ! 6) = 0 \<and>
   linear_x (lane_waypoints (fst (send_next_waypoints (cruising\<lparr>red_light_wp := 29\<rparr>))) ! 29) = 0 \<and>
   MAX_SPEED_METERS_PER_SEC \<noteq> 0"
proof -
  from cruising_publishes[of 29] obtain w self'
    where e: "send_next_waypoints (cruising\<lparr>red_light_wp := 29\<rparr>) = (Published w, self')"
    by auto
  note l = cruising_cycle[OF e]
  have r: "red_light_wp (cruising\<lparr>red_light_wp := 29\<rparr>) \<noteq> - 1"
    "red_light_wp (cruising\<lparr>red_light_wp := 29\<rparr>) - 25 < 100"
    by simp_all
  have n: "LOOKAHEAD_WPS - 2 \<le> length (track 230 5)" by (simp add: LOOKAHEAD_WPS_def)
  have "linear_x (w ! 5) = 0"
    using offsets_beyond_stop_get_zero[OF e cruising_waypoints l r _ _ _ n, of 5] by simp
  moreover have "linear_x (w ! 6) = 0"
    using offsets_beyond_stop_get_zero[OF e cruising_waypoints l r _ _ _ n, of 6] by simp
  moreover have "linear_x (w ! 29) = 0"
    using offsets_beyond_stop_get_zero[OF e cruising_waypoints l r _ _ _ n, of 29] by simp
  ultimately show ?thesis by (simp add: e MAX_SPEED_METERS_PER_SEC_def)
qed

text \<open>
  C3. The claim: for every non-empty path and every pose the search for the closest
  waypoint returns a valid index and raises nothing, also when \<open>last_wp_id\<close> is set and
  the range of the scan reaches beyond the end of the path. The scan reads
  \<^verbatim>\<open>self.waypoints[i]\<close> for every \<open>i\<close> of
  \<^verbatim>\<open>range(last_wp_id - 20, last_wp_id + 20)\<close>: when the range reaches beyond the end of
  the path, or below minus its length, the read raises \<^verbatim>\<open>IndexError\<close>, whatever the pose.
\<close>

theorem scan_past_the_path_raises:
  assumes "l - 20 < - int (length wps) \<or> int (length wps) < l + 20"
  shows "closest_waypoint wps p (Some l) = Inl IndexError"
proof -
  have "\<exists>i\<in>set [l - 20..l + 20 - 1]. getitem wps i = Inl IndexError"
  proof (cases "l - 20 < - int (length wps)")
    case True
    then have "getitem wps (l - 20) = Inl IndexError" by (simp add: getitem_error_iff)
    moreover have "l - 20 \<in> set [l - 20..l + 20 - 1]" by simp
    ultimately show ?thesis by blast
  next
    case False
    with assms have "int (length wps) \<le> l + 20 - 1" by simp
    then have "getitem wps (l + 20 - 1) = Inl IndexError" by (simp add: getitem_error_iff)
    moreover have "l + 20 - 1 \<in> set [l - 20..l + 20 - 1]" by simp
    ultimately show ?thesis by blast
  qed
  then obtain i where "i \<in> set [l - 20..l + 20 - 1]" "getitem wps i = Inl IndexError"
    by blast
  then have "closest_scan wps (pose_x p) (pose_y p) [l - 20..l + 20 - 1]
      (real_of_int sys_maxsize, None) = Inl IndexError"
    by (rule closest_scan_error)
  then show ?thesis by (simp add: closest_waypoint_def)
qed

theorem scan_past_the_path_raises_witness:
  "closest_waypoint (track 230 5) \<lparr>pose_x = 220, pose_y = 0\<rparr> (Some 220) = Inl IndexError \<and>
   send_next_waypoints (cruising\<lparr>current_pose := Some \<lparr>pose_x = 220, pose_y = 0\<rparr>,
                                 last_wp_id := Some 220\<rparr>)
     = (Raised IndexError, cruising\<lparr>current_pose := Some \<lparr>pose_x = 220, pose_y = 0\<rparr>,
                                    last_wp_id := Some 220\<rparr>)"
proof -
  have "(220::int) - 20 < - int (length (track 230 5)) \<or> int (length (track 230 5)) < 220 + 20"
    by simp
  then have c: "closest_waypoint (track 230 5) \<lparr>pose_x = 220, pose_y = 0\<rparr> (Some 220)
      = Inl IndexError"
    by (rule scan_past_the_path_raises)
  have "waypoints (cruising\<lparr>current_pose := Some \<lparr>pose_x = 220, pose_y = 0\<rparr>,
                                 last_wp_id := Some 220\<rparr>) = Some (track 230 5)"
    by (simp add: cruising_def)
  with c show ?thesis by (simp add: send_next_waypoints_def)
qed

text \<open>
  C4. The claim: assigning the speeds of the window never changes the waypoints the node
  has stored. The window holds references to the stored waypoints, and
  \<^verbatim>\<open>set_waypoint_velocity\<close> assigns to the referenced object: after a cycle with no stop
  signal the stored waypoints at the positions of the window's offsets 0 to 197 have the
  speed \<open>V_MAX\<close>, whatever speed they had.
\<close>

theorem path_store_speeds_overwritten:
  assumes "send_next_waypoints self = (Published w, self')"
    and "waypoints self = Some wps" and "last_wp_id self' = Some m"
    and "red_light_wp self = - 1"
  shows "\<exists>objs. waypoints self' = Some objs \<and> length objs = length wps \<and>
           (\<forall>i<198. linear_x (objs ! ((nat m + i) mod length wps)) = MAX_SPEED_METERS_PER_SEC)"
proof -
  from assms(1) obtain wps0 p m0 objs where
    a: "waypoints self = Some wps0"
    "objs = adjust_speeds (red_light_wp self \<noteq> - 1 \<and> red_light_wp self - m0 < 100)
              (red_light_wp self) m0
              (islice_cycle (length wps0) (nat m0) (nat m0 + LOOKAHEAD_WPS - 1)) wps0"
    "\<forall>i<199. w ! i = objs ! ((nat m0 + i) mod length wps0)"
    "self' = self\<lparr>last_wp_id := Some m0, waypoints := Some objs\<rparr>"
    by (rule Published_window)
  from a(1) assms(2) have [simp]: "wps0 = wps" by simp
  from a(4) assms(3) have [simp]: "m0 = m" by simp
  have "\<forall>i<198. linear_x (objs ! ((nat m + i) mod length wps)) = MAX_SPEED_METERS_PER_SEC"
  proof (intro allI impI)
    fix i :: nat assume i: "i < 198"
    with assms(1-3) have "linear_x (w ! i) = MAX_SPEED_METERS_PER_SEC"
      by (rule Published_speed) (simp add: assms(4))
    with a(3) i show "linear_x (objs ! ((nat m + i) mod length wps)) = MAX_SPEED_METERS_PER_SEC"
      by simp
  qed
  moreover have "length objs = length wps" by (simp add: a(2) adjust_speeds_length)
  moreover have "waypoints self' = Some objs" by (simp add: a(4))
  ultimately show ?thesis by blast
qed

theorem path_store_speeds_overwritten_witness:
  "is_Published (fst (send_next_waypoints cruising)) \<and>
   map_option (\<lambda>objs. linear_x (objs ! 25)) (waypoints cruising) = Some 5 \<and>
   map_option (\<lambda>objs. linear_x (objs ! 25)) (waypoints (snd (send_next_waypoints cruising)))
     = Some MAX_SPEED_METERS_PER_SEC \<and>
   waypoints (snd (send_next_waypoints cruising)) \<noteq> waypoints cruising"
proof -
  have c: "cruising\<lparr>red_light_wp := - 1\<rparr> = cruising" by (simp add: cruising_def)
  from cruising_publishes[of "- 1"] obtain w self'
    where e: "send_next_waypoints cruising = (Published w, self')"
    by (auto simp: c)
  have l: "last_wp_id self' = Some 25" using cruising_cycle[of "- 1"] e by (simp add: c)
  have wp: "waypoints cruising = Some (track 230 5)" by (simp add: cruising_def)
  have r: "red_light_wp cruising = - 1" by (simp add: cruising_def)
  from path_store_speeds_overwritten[OF e wp l r] obtain objs where
    o: "waypoints self' = Some objs"
    "\<forall>i<198. linear_x (objs ! ((nat 25 + i) mod length (track 230 5))) = MAX_SPEED_METERS_PER_SEC"
    by blast
  from o(2)[rule_format, of 0] have s: "linear_x (objs ! 25) = MAX_SPEED_METERS_PER_SEC"
    by simp
  have m: "MAX_SPEED_METERS_PER_SEC \<noteq> 5" by (simp add: MAX_SPEED_METERS_PER_SEC_def)
  have "objs \<noteq> track 230 5"
  proof
    assume "objs = track 230 5"
    with s have "linear_x (track 230 5 ! 25) = MAX_SPEED_METERS_PER_SEC" by simp
    with m show False by simp
  qed
  with s show ?thesis by (simp add: e o(1) wp)
qed

text \<open>
  C5. The claim: with no stop signal (\<open>red_light_wp = - 1\<close>) every speed of the published
  window is \<open>V_MAX\<close>, the last one too. The loop runs over
  \<^verbatim>\<open>range(len(next_wps) - 1)\<close>: the offsets 0 to 197 carry \<open>V_MAX\<close>, and on a path of at
  least 199 waypoints the last element of the window, at offset 198, is the waypoint of the
  path as it was stored, with the speed it had before the cycle.
\<close>

theorem last_waypoint_keeps_speed:
  assumes "send_next_waypoints self = (Published w, self')"
    and "waypoints self = Some wps" and "last_wp_id self' = Some m"
    and "red_light_wp self = - 1" and "LOOKAHEAD_WPS - 1 \<le> length wps"
  shows "(\<forall>i<198. linear_x (w ! i) = MAX_SPEED_METERS_PER_SEC) \<and>
         w ! 198 = wps ! ((nat m + 198) mod length wps)"
proof
  show "\<forall>i<198. linear_x (w ! i) = MAX_SPEED_METERS_PER_SEC"
  proof (intro allI impI)
    fix i :: nat assume "i < 198"
    with assms(1-3) show "linear_x (w ! i) = MAX_SPEED_METERS_PER_SEC"
      by (rule Published_speed) (simp add: assms(4))
  qed
next
  from assms(1) obtain wps0 p m0 objs where
    a: "waypoints self = Some wps0" "0 \<le> m0" "m0 < int (length wps0)"
    "objs = adjust_speeds (red_light_wp self \<noteq> - 1 \<and> red_light_wp self - m0 < 100)
              (red_light_wp self) m0
              (islice_cycle (length wps0) (nat m0) (nat m0 + LOOKAHEAD_WPS - 1)) wps0"
    "\<forall>i<199. w ! i = objs ! ((nat m0 + i) mod length wps0)"
    "self' = self\<lparr>last_wp_id := Some m0, waypoints := Some objs\<rparr>"
    by (rule Published_window)
  from a(1) assms(2) have [simp]: "wps0 = wps" by simp
  from a(6) assms(3) have [simp]: "m0 = m" by simp
  from a(2,3) have n: "0 < length wps" by auto
  from assms(5) have big: "199 \<le> length wps" by (simp add: LOOKAHEAD_WPS_def)
  define refs where "refs = islice_cycle (length wps) (nat m) (nat m + LOOKAHEAD_WPS - 1)"
  have lr: "length refs - 1 = 198"
    by (simp add: refs_def islice_cycle_length[OF n] LOOKAHEAD_WPS_def)
  have nr: "\<And>j. j < 199 \<Longrightarrow> refs ! j = (nat m + j) mod length wps"
    by (simp add: refs_def islice_cycle_nth[OF n] LOOKAHEAD_WPS_def)
  have objs: "objs = adjust_speeds (red_light_wp self \<noteq> - 1 \<and> red_light_wp self - m < 100)
              (red_light_wp self) m refs wps"
    using a(4) by (simp add: refs_def)
  have "objs ! ((nat m + 198) mod length wps) = wps ! ((nat m + 198) mod length wps)"
    unfolding objs
  proof (rule adjust_speeds_untouched, intro allI impI)
    fix i assume "i < length refs - 1"
    then have i: "i < 198" using lr by simp
    show "refs ! i \<noteq> (nat m + 198) mod length wps"
    proof
      assume "refs ! i = (nat m + 198) mod length wps"
      with i have "(nat m + 198) mod length wps = (nat m + i) mod length wps"
        by (simp add: nr)
      moreover have "i \<le> 198" "198 - i < length wps" using i big by auto
      ultimately have "198 = i" by (rule mod_alias)
      with i show False by simp
    qed
  qed
  with a(5) show "w ! 198 = wps ! ((nat m + 198) mod length wps)" by simp
qed

theorem last_waypoint_keeps_speed_witness:
  "is_Published (fst (send_next_waypoints cruising)) \<and>
   linear_x (lane_waypoints (fst (send_next_waypoints cruising)) ! 197) = MAX_SPEED_METERS_PER_SEC \<and>
   linear_x (lane_waypoints (fst (send_next_waypoints cruising)) ! 198) = 5 \<and>
   MAX_SPEED_METERS_PER_SEC \<noteq> 5"
proof -
  have c: "cruising\<lparr>red_light_wp := - 1\<rparr> = cruising" by (simp add: cruising_def)
  from cruising_publishes[of "- 1"] obtain w self'
    where e: "send_next_waypoints cruising = (Published w, self')"
    by (auto simp: c)
  have l: "last_wp_id self' = Some 25" using cruising_cycle[of "- 1"] e by (simp add: c)
  have wp: "waypoints cruising = Some (track 230 5)" by (simp add: cruising_def)
  have r: "red_light_wp cruising = - 1" by (simp add: cruising_def)
  have n: "LOOKAHEAD_WPS - 1 \<le> length (track 230 5)" by (simp add: LOOKAHEAD_WPS_def)
  from last_waypoint_keeps_speed[OF e wp l r n]
  have "linear_x (w ! 197) = MAX_SPEED_METERS_PER_SEC" "linear_x (w ! 198) = 5"
    by simp_all
  then show ?thesis by (simp add: e MAX_SPEED_METERS_PER_SEC_def)
qed

text \<open>
  C6. When the stop index is not \<open>- 1\<close>, is less than \<open>SLOWDOWN_WPS\<close> ahead of the nearest
  index and is at or behind the nearest index, the cycle publishes no window: with a
  nearest index that is an index of the path (not negative) it returns at the log line,
  and the only change of the state is \<open>last_wp_id\<close>.
\<close>

theorem stop_behind_aborts:
  assumes "waypoints self = Some wps" and "current_pose self = Some p"
    and "closest_waypoint wps p (last_wp_id self) = Inr m"
    and "red_light_wp self \<noteq> - 1" and "red_light_wp self - m < SLOWDOWN_WPS"
    and "red_light_wp self \<le> m"
  shows "\<not> is_Published (fst (send_next_waypoints self)) \<and>
         (0 \<le> m \<longrightarrow> send_next_waypoints self = (Aborted, self\<lparr>last_wp_id := Some m\<rparr>))"
  using assms by (simp add: send_next_waypoints_def SLOWDOWN_WPS_def Let_def)

theorem stop_behind_aborts_witness:
  "send_next_waypoints (cruising\<lparr>red_light_wp := 20\<rparr>) = (Aborted, cruising\<lparr>red_light_wp := 20\<rparr>)"
proof -
  have 1: "waypoints (cruising\<lparr>red_light_wp := 20\<rparr>) = Some (track 230 5)"
    and 2: "current_pose (cruising\<lparr>red_light_wp := 20\<rparr>) = Some \<lparr>pose_x = 25, pose_y = 0\<rparr>"
    and l: "last_wp_id (cruising\<lparr>red_light_wp := 20\<rparr>) = Some 25"
    and s: "cruising\<lparr>red_light_wp := 20, last_wp_id := Some 25\<rparr> = cruising\<lparr>red_light_wp := 20\<rparr>"
    by (simp_all add: cruising_def)
  have 3: "closest_waypoint (track 230 5) \<lparr>pose_x = 25, pose_y = 0\<rparr>
      (last_wp_id (cruising\<lparr>red_light_wp := 20\<rparr>)) = Inr 25"
    unfolding l by (rule cruising_closest)
  have 4: "red_light_wp (cruising\<lparr>red_light_wp := 20\<rparr>) \<noteq> - 1"
    "red_light_wp (cruising\<lparr>red_light_wp := 20\<rparr>) - 25 < SLOWDOWN_WPS"
    "red_light_wp (cruising\<lparr>red_light_wp := 20\<rparr>) \<le> 25"
    by (simp_all add: SLOWDOWN_WPS_def)
  from stop_behind_aborts[OF 1 2 3 4] show ?thesis by (simp add: s)
qed

text \<open>
  C7. The claim: with \<open>last_wp_id\<close> set, the scan examines exactly the waypoints at the
  positions \<open>last_wp_id - 20\<close> to \<open>last_wp_id + 19\<close> of the path, with no wrapping below
  position 0 or at the end of the path. The code does not bound the range of the scan
  below: with \<open>last_wp_id < 20\<close> it holds negative indices, and
  \<^verbatim>\<open>self.waypoints[i]\<close> reads a negative index from the end of the list. On a path of 60
  waypoints with \<open>last_wp_id = 5\<close> the scan reads the waypoint at position 59, as the
  index \<open>- 1\<close>: two paths of 60 waypoints that differ at position 59 only give different
  results, and on one of them the result is the index \<open>- 1\<close>, on which
  \<^verbatim>\<open>islice\<close> raises \<^verbatim>\<open>ValueError\<close>.
\<close>

theorem windowed_scan_reads_from_the_end:
  "closest_waypoint seam \<lparr>pose_x = - 1, pose_y = 0\<rparr> (Some 5) = Inr (- 1) \<and>
   closest_waypoint (track 60 5) \<lparr>pose_x = - 1, pose_y = 0\<rparr> (Some 5) = Inr 0 \<and>
   length seam = 60 \<and> take 59 seam = take 59 (track 60 5) \<and>
   send_next_waypoints
     \<lparr>waypoints = Some seam, current_pose = Some \<lparr>pose_x = - 1, pose_y = 0\<rparr>,
      red_light_wp = - 1, last_wp_id = Some 5, upcoming_light_state = None\<rparr>
   = (Raised ValueError,
      \<lparr>waypoints = Some seam, current_pose = Some \<lparr>pose_x = - 1, pose_y = 0\<rparr>,
       red_light_wp = - 1, last_wp_id = Some (- 1), upcoming_light_state = None\<rparr>)"
proof -
  have "closest_waypoint (track 60 5) \<lparr>pose_x = - 1, pose_y = 0\<rparr> (Some 5) = Inr 0"
    by (simp add: closest_waypoint_def getitem_def sqrt_less_maxsize sys_maxsize_def Let_def
        upto_rec1)
  moreover have "length seam = 60" "take 59 seam = take 59 (track 60 5)"
    by (simp_all add: seam_def)
  ultimately show ?thesis
    using seam_closest negative_index_raises by simp
qed

text \<open>
  C8. The first delivery of a path stores it: the node then holds the waypoints of the
  lane, in their order, and the lane itself when no pose is known yet (with a pose, the
  cycle the delivery starts assigns speeds to the stored waypoints at once). After that,
  whatever messages are delivered, the node still holds the waypoints of the first lane,
  and the delivery of another lane is a no-op: \<^verbatim>\<open>waypoints_cb\<close> starts no cycle and
  leaves the state as it is.
\<close>

theorem path_store_first_writer_wins:
  assumes "waypoints self = None"
    and "self1 = snd (waypoints_cb self lane)"
    and "self2 = foldl deliver self1 evs"
  shows "(\<exists>objs. waypoints self1 = Some objs \<and> map place objs = map place lane \<and>
            (current_pose self = None \<longrightarrow> objs = lane)) \<and>
         (\<exists>objs. waypoints self2 = Some objs \<and> map place objs = map place lane) \<and>
         waypoints_cb self2 lane' = (None, self2)"
proof -
  have w: "waypoints (self\<lparr>waypoints := Some lane\<rparr>) = Some lane" by simp
  have s1: "self1 = snd (send_next_waypoints (self\<lparr>waypoints := Some lane\<rparr>))"
    using assms(1) by (simp add: assms(2) waypoints_cb_def split_beta)
  from send_next_waypoints_path[OF w] obtain objs where
    o: "waypoints self1 = Some objs" "map place objs = map place lane"
    "\<not> is_Published (fst (send_next_waypoints (self\<lparr>waypoints := Some lane\<rparr>))) \<longrightarrow> objs = lane"
    unfolding s1 by blast
  have c: "current_pose self = None \<longrightarrow> objs = lane"
    using o(3) by (simp add: send_next_waypoints_def)
  have 1: "\<exists>objs. waypoints self1 = Some objs \<and> map place objs = map place lane \<and>
            (current_pose self = None \<longrightarrow> objs = lane)"
    using o(1,2) c by simp
  from foldl_deliver_path[OF o(1), of evs] obtain objs2 where
    o2: "waypoints (foldl deliver self1 evs) = Some objs2" "map place objs2 = map place objs"
    by (elim exE conjE)
  have 2: "\<exists>objs. waypoints self2 = Some objs \<and> map place objs = map place lane"
    using o2 o(2) by (simp add: assms(3))
  have 3: "waypoints_cb self2 lane' = (None, self2)"
    using o2(1) by (simp add: waypoints_cb_def assms(3))
  from 1 2 3 show ?thesis by (intro conjI)
qed

theorem path_store_first_writer_wins_witness:
  "waypoints (snd (waypoints_cb init (track 230 5))) = Some (track 230 5) \<and>
   waypoints_cb (foldl deliver (snd (waypoints_cb init (track 230 5))) [LaneMsg seam]) seam
     = (None, foldl deliver (snd (waypoints_cb init (track 230 5))) [LaneMsg seam]) \<and>
   waypoints (foldl deliver (snd (waypoints_cb init (track 230 5))) [LaneMsg seam])
     = Some (track 230 5)"
proof -
  have n: "waypoints init = None" "current_pose init = None" by (simp_all add: init_def)
  from path_store_first_writer_wins[OF n(1) refl refl, of "track 230 5" "[LaneMsg seam]" seam] n(2)
  have "waypoints (snd (waypoints_cb init (track 230 5))) = Some (track 230 5)"
    and "waypoints_cb (foldl deliver (snd (waypoints_cb init (track 230 5))) [LaneMsg seam]) seam
     = (None, foldl deliver (snd (waypoints_cb init (track 230 5))) [LaneMsg seam])"
    by auto
  then show ?thesis by (simp add: waypoints_cb_def)
qed

text \<open>
  C9. With an actionable stop at the relative offset \<open>k = stopIndex - nearestIndex\<close>,
  \<open>5 \<le> k < SLOWDOWN_WPS\<close>, the speed the loop assigns at offset \<open>k\<close> is 0, the speeds
  it assigns at the offsets 0 to \<open>k\<close> do not increase with the offset, each is at most
  \<open>V_MAX\<close>, and each is the clamped ramp
  \<open>V_MAX - (SLOWDOWN_WPS - remaining) * (V_MAX / SLOWDOWN_WPS)\<close>, or 0 where
  \<open>remaining < 5\<close>. On a path of at least 198 waypoints the published window carries
  these speeds at the offsets 0 to \<open>k\<close> (on a shorter path a later offset of the window
  refers to the same waypoint, and the loop assigns to it again).
\<close>

theorem braking_ramp:
  assumes "send_next_waypoints self = (Published w, self')"
    and "waypoints self = Some wps" and "last_wp_id self' = Some m"
    and "k = red_light_wp self - m" and "5 \<le> k" and "k < SLOWDOWN_WPS"
    and "assigned = new_velocity (red_light_wp self \<noteq> - 1 \<and> red_light_wp self - m < 100)
                       (red_light_wp self) m"
  shows "assigned (nat k) = 0 \<and>
         (\<forall>i j. i \<le> j \<and> j \<le> nat k \<longrightarrow> assigned j \<le> assigned i) \<and>
         (\<forall>i\<le>nat k. assigned i \<le> MAX_SPEED_METERS_PER_SEC \<and>
            assigned i =
              (if k - int i < 5 then 0
               else max 0 (MAX_SPEED_METERS_PER_SEC
                             - real_of_int (SLOWDOWN_WPS - (k - int i))
                               * (MAX_SPEED_METERS_PER_SEC / real_of_int SLOWDOWN_WPS)))) \<and>
         (LOOKAHEAD_WPS - 2 \<le> length wps \<longrightarrow> (\<forall>i\<le>nat k. linear_x (w ! i) = assigned i))"
proof -
  from assms(1,3) have m: "0 \<le> m" by (auto elim!: Published_window)
  have cf: "assigned i = (if k - int i < 5 then 0
              else MAX_SPEED_METERS_PER_SEC * real_of_int (k - int i) / 100)"
    if "i \<le> nat k" for i
    unfolding assms(7) assms(4)
    using m assms(5,6) that by (intro new_velocity_ramp) (auto simp: assms(4))
  have 1: "assigned (nat k) = 0"
    using assms(5) by (simp add: cf)
  have 2: "\<forall>i j. i \<le> j \<and> j \<le> nat k \<longrightarrow> assigned j \<le> assigned i"
  proof (intro allI impI)
    fix i j assume "i \<le> j \<and> j \<le> nat k"
    then have "assigned j = (if k - int j < 5 then 0
              else MAX_SPEED_METERS_PER_SEC * real_of_int (k - int j) / 100)"
      "assigned i = (if k - int i < 5 then 0
              else MAX_SPEED_METERS_PER_SEC * real_of_int (k - int i) / 100)"
      "int i \<le> int j"
      by (simp_all add: cf)
    then show "assigned j \<le> assigned i"
      by (auto simp: MAX_SPEED_METERS_PER_SEC_def)
  qed
  have 3: "\<forall>i\<le>nat k. assigned i \<le> MAX_SPEED_METERS_PER_SEC \<and>
            assigned i =
              (if k - int i < 5 then 0
               else max 0 (MAX_SPEED_METERS_PER_SEC
                             - real_of_int (SLOWDOWN_WPS - (k - int i))
                               * (MAX_SPEED_METERS_PER_SEC / real_of_int SLOWDOWN_WPS)))"
  proof (intro allI impI)
    fix i assume i: "i \<le> nat k"
    have b: "k - int i < 100" using assms(6) by (simp add: SLOWDOWN_WPS_def)
    show "assigned i \<le> MAX_SPEED_METERS_PER_SEC \<and>
            assigned i =
              (if k - int i < 5 then 0
               else max 0 (MAX_SPEED_METERS_PER_SEC
                             - real_of_int (SLOWDOWN_WPS - (k - int i))
                               * (MAX_SPEED_METERS_PER_SEC / real_of_int SLOWDOWN_WPS)))"
    proof (cases "k - int i < 5")
      case True
      then show ?thesis by (simp add: cf[OF i] MAX_SPEED_METERS_PER_SEC_def)
    next
      case False
      define t where "t = real_of_int (k - int i)"
      from False b have t: "5 \<le> t" "t < 100" by (simp_all add: t_def)
      have e1: "assigned i = 8.94 * t / 100"
        using False by (simp add: cf[OF i] MAX_SPEED_METERS_PER_SEC_def t_def)
      have e2: "max 0 (MAX_SPEED_METERS_PER_SEC
                             - real_of_int (SLOWDOWN_WPS - (k - int i))
                               * (MAX_SPEED_METERS_PER_SEC / real_of_int SLOWDOWN_WPS))
                = max 0 (8.94 - (100 - t) * (8.94 / 100))"
        by (simp add: MAX_SPEED_METERS_PER_SEC_def SLOWDOWN_WPS_def t_def)
      have q: "8.94 - (100 - t) * (8.94 / 100) = 8.94 * t / 100"
        by (simp add: field_simps)
      have "0 \<le> 8.94 * t / 100" using t by simp
      then have e3: "max 0 (8.94 - (100 - t) * (8.94 / 100)) = 8.94 * t / 100"
        unfolding q by (rule max_absorb2)
      show ?thesis
      proof
        show "assigned i \<le> MAX_SPEED_METERS_PER_SEC"
          unfolding e1 MAX_SPEED_METERS_PER_SEC_def using t by simp
        show "assigned i =
              (if k - int i < 5 then 0
               else max 0 (MAX_SPEED_METERS_PER_SEC
                             - real_of_int (SLOWDOWN_WPS - (k - int i))
                               * (MAX_SPEED_METERS_PER_SEC / real_of_int SLOWDOWN_WPS)))"
          by (simp only: False if_False e2 e3 e1)
      qed
    qed
  qed
  have 4: "LOOKAHEAD_WPS - 2 \<le> length wps \<longrightarrow> (\<forall>i\<le>nat k. linear_x (w ! i) = assigned i)"
  proof (intro allI impI)
    fix i assume n: "LOOKAHEAD_WPS - 2 \<le> length wps" and i: "i \<le> nat k"
    from n have n': "198 \<le> length wps" by (simp add: LOOKAHEAD_WPS_def)
    from i assms(6) have i': "i < 198" by (simp add: SLOWDOWN_WPS_def)
    from assms(1-3) i' show "linear_x (w ! i) = assigned i"
    proof (rule Published_speed, intro allI impI)
      fix i' assume h: "i \<le> i' \<and> i' < 198 \<and>
          (nat m + i') mod length wps = (nat m + i) mod length wps"
      then have "(nat m + i') mod length wps = (nat m + i) mod length wps" by simp
      moreover from h n' have "i \<le> i'" "i' - i < length wps" by auto
      ultimately have "i' = i" by (rule mod_alias)
      then show "new_velocity (red_light_wp self \<noteq> - 1 \<and> red_light_wp self - m < 100)
             (red_light_wp self) m i' = assigned i"
        by (simp add: assms(7))
    qed
  qed
  from 1 2 3 4 show ?thesis by blast
qed

theorem braking_ramp_witness:
  "is_Published (fst (send_next_waypoints (cruising\<lparr>red_light_wp := 35\<rparr>))) \<and>
   map (\<lambda>i. linear_x (lane_waypoints (fst (send_next_waypoints (cruising\<lparr>red_light_wp := 35\<rparr>))) ! i))
     [0, 4, 5, 6, 10] = [0.894, 0.5364, 0.447, 0, 0]"
proof -
  from cruising_publishes[of 35] obtain w self'
    where e: "send_next_waypoints (cruising\<lparr>red_light_wp := 35\<rparr>) = (Published w, self')"
    by auto
  note l = cruising_cycle[OF e]
  have r: "red_light_wp (cruising\<lparr>red_light_wp := 35\<rparr>) = 35" by simp
  have k: "(10::int) = red_light_wp (cruising\<lparr>red_light_wp := 35\<rparr>) - 25" "(5::int) \<le> 10"
    "10 < SLOWDOWN_WPS"
    by (simp_all add: SLOWDOWN_WPS_def)
  have n: "LOOKAHEAD_WPS - 2 \<le> length (track 230 5)" by (simp add: LOOKAHEAD_WPS_def)
  note br = braking_ramp[OF e cruising_waypoints l k refl]
  from br[THEN conjunct2, THEN conjunct2, THEN conjunct2, THEN mp, OF n]
  have a: "\<And>i. i \<le> 10 \<Longrightarrow>
      linear_x (w ! i) = new_velocity ((35::int) \<noteq> - 1 \<and> (35::int) - 25 < 100) 35 25 i"
    unfolding r by simp
  have "linear_x (w ! 0) = 0.894" "linear_x (w ! 4) = 0.5364" "linear_x (w ! 5) = 0.447"
    "linear_x (w ! 6) = 0" "linear_x (w ! 10) = 0"
    by (simp_all add: a new_velocity_def SLOWDOWN_WPS_def MAX_SPEED_METERS_PER_SEC_def)
  then show ?thesis by (simp add: e)
qed

text \<open>
  C10. A cycle that returns at the log line of the red light behind the car has set
  \<open>last_wp_id\<close> to the index the search for the closest waypoint has found: the state
  it leaves is the state before with this new \<open>last_wp_id\<close>.
\<close>

theorem abort_updates_last_wp_id:
  assumes "send_next_waypoints self = (Aborted, self')"
  shows "\<exists>wps p m. waypoints self = Some wps \<and> current_pose self = Some p \<and>
           closest_waypoint wps p (last_wp_id self) = Inr m \<and>
           self' = self\<lparr>last_wp_id := Some m\<rparr>"
  using assms
  by (auto simp: send_next_waypoints_def Let_def split: option.splits sum.splits if_splits)

theorem abort_updates_last_wp_id_witness:
  "fst (send_next_waypoints
     (cruising\<lparr>current_pose := Some \<lparr>pose_x = 30, pose_y = 0\<rparr>, red_light_wp := 20\<rparr>)) = Aborted \<and>
   last_wp_id (cruising\<lparr>current_pose := Some \<lparr>pose_x = 30, pose_y = 0\<rparr>, red_light_wp := 20\<rparr>)
     = Some 25 \<and>
   last_wp_id (snd (send_next_waypoints
     (cruising\<lparr>current_pose := Some \<lparr>pose_x = 30, pose_y = 0\<rparr>, red_light_wp := 20\<rparr>))) = Some 30"
proof -
  define s where "s = cruising\<lparr>current_pose := Some \<lparr>pose_x = 30, pose_y = 0\<rparr>, red_light_wp := 20\<rparr>"
  have f: "waypoints s = Some (track 230 5)" "current_pose s = Some \<lparr>pose_x = 30, pose_y = 0\<rparr>"
    "last_wp_id s = Some 25" "red_light_wp s = 20"
    by (simp_all add: s_def cruising_def)
  have c: "closest_waypoint (track 230 5) \<lparr>pose_x = 30, pose_y = 0\<rparr> (last_wp_id s) = Inr 30"
    unfolding f by (rule away_closest)
  have a: "send_next_waypoints s = (Aborted, snd (send_next_waypoints s))"
    using c by (simp add: send_next_waypoints_def f Let_def)
  from abort_updates_last_wp_id[OF a] obtain m where
    "closest_waypoint (track 230 5) \<lparr>pose_x = 30, pose_y = 0\<rparr> (last_wp_id s) = Inr m"
    "snd (send_next_waypoints s) = s\<lparr>last_wp_id := Some m\<rparr>"
    by (auto simp: f)
  with c have "last_wp_id (snd (send_next_waypoints s)) = Some 30" by simp
  moreover from a have "fst (send_next_waypoints s) = Aborted" by (metis fst_conv)
  ultimately show ?thesis using f(3) by (simp add: s_def)
qed

end
